theory Spec2Isabelle
  imports Main
begin

section \<open>Strings and arrays of the source language\<close>

text \<open>
  A JavaScript string is a sequence of UTF-16 code units; a code unit is modelled as a
  natural number. \<open>js\<close> turns an ASCII literal into such a sequence.
\<close>

type_synonym jsstring = "nat list"

definition js :: "string \<Rightarrow> jsstring" where
  "js s = map of_char s"

text \<open>
  The code units that \<^verbatim>\<open>String.prototype.trim\<close> strips: the WhiteSpace and
  LineTerminator productions of ECMAScript.
\<close>

definition isWhiteSpace :: "nat \<Rightarrow> bool" where
  "isWhiteSpace c \<longleftrightarrow>
     c \<in> set [0x09, 0x0A, 0x0B, 0x0C, 0x0D, 0x20, 0xA0, 0x1680,
               0x2000, 0x2001, 0x2002, 0x2003, 0x2004, 0x2005, 0x2006, 0x2007,
               0x2008, 0x2009, 0x200A, 0x2028, 0x2029, 0x202F, 0x205F, 0x3000, 0xFEFF]"

definition trim :: "jsstring \<Rightarrow> jsstring" where
  "trim s = rev (dropWhile isWhiteSpace (rev (dropWhile isWhiteSpace s)))"

definition endsWith :: "jsstring \<Rightarrow> jsstring \<Rightarrow> bool" where
  "endsWith s suffix \<longleftrightarrow>
     length suffix \<le> length s \<and> drop (length s - length suffix) s = suffix"

text \<open>
  Reading \<^verbatim>\<open>xs[i]\<close>: an index outside the array yields \<^verbatim>\<open>undefined\<close>,
  which is \<open>None\<close> here.
\<close>

definition js_nth :: "'a list \<Rightarrow> nat \<Rightarrow> 'a option" where
  "js_nth xs i = (if i < length xs then Some (xs ! i) else None)"

text \<open>
  The declared types are erased when the program runs: a variable declared a string
  holds whatever was stored there. \<open>jsvalue\<close> is what such a variable can hold: a
  string, \<^verbatim>\<open>undefined\<close>, or another value that came out of
  \<^verbatim>\<open>JSON.parse\<close>, kept as its JSON text.
\<close>

datatype jsvalue = JsString jsstring | JsUndefined | JsOther jsstring

section \<open>Data model (types.ts)\<close>

datatype language = gdscript | shader | json

record ProjectFile =
  id' :: jsstring
  name :: jsstring
  language :: language
  content :: jsvalue

section \<open>The App component: state and initial values\<close>

definition INITIAL_CODE :: jsstring where
  "INITIAL_CODE =
     js ''extends CharacterBody2D'' @ [10] @
     [10] @
     js ''const SPEED = 300.0'' @ [10] @
     js ''const JUMP_VELOCITY = -400.0'' @ [10] @
     [10] @
     js ''var gravity = ProjectSettings.get_setting('' @ [34] @
       js ''physics/2d/default_gravity'' @ [34] @ js '')'' @ [10] @
     [10] @
     js ''func _physics_process(delta):'' @ [10] @
     [9] @ js ''if not is_on_floor():'' @ [10] @
     [9, 9] @ js ''velocity.y += gravity * delta'' @ [10] @
     [10] @
     [9] @ js ''if Input.is_action_just_pressed('' @ [34] @ js ''ui_accept'' @ [34] @
       js '') and is_on_floor():'' @ [10] @
     [9, 9] @ js ''velocity.y = JUMP_VELOCITY'' @ [10] @
     [10] @
     [9] @ js ''var direction = Input.get_axis('' @ [34] @ js ''ui_left'' @ [34] @
       js '', '' @ [34] @ js ''ui_right'' @ [34] @ js '')'' @ [10] @
     [9] @ js ''if direction:'' @ [10] @
     [9, 9] @ js ''velocity.x = direction * SPEED'' @ [10] @
     [9] @ js ''else:'' @ [10] @
     [9, 9] @ js ''velocity.x = move_toward(velocity.x, 0, SPEED)'' @ [10] @
     [10] @
     [9] @ js ''move_and_slide()'' @ [10]"

definition INITIAL_FILES :: "ProjectFile list" where
  "INITIAL_FILES =
     [\<lparr>id' = js ''1'', name = js ''player.gd'', language = gdscript, content = JsString INITIAL_CODE\<rparr>,
      \<lparr>id' = js ''2'', name = js ''game_manager.gd'', language = gdscript,
        content = JsString (js ''extends Node'' @ [10, 10] @ js ''var score: int = 0'' @ [10])\<rparr>]"

text \<open>
  The state variables of \<^verbatim>\<open>App\<close> that the file set and its history use.
  \<open>files\<close> is \<open>None\<close> when the variable holds \<^verbatim>\<open>undefined\<close>, which
  \<^verbatim>\<open>setFiles(history[newIndex])\<close> stores when \<^verbatim>\<open>newIndex\<close> is outside the log.
  \<open>historyIndex\<close> starts at 0 and is only ever set to a length minus one of a
  non-empty array or moved by one inside its guards, so it is a natural number.
\<close>

record AppState =
  files :: "ProjectFile list option"
  activeFileId :: jsstring
  explanation :: jsvalue
  generatedImage :: "jsstring option"
  history :: "ProjectFile list list"
  historyIndex :: nat

definition initialState :: AppState where
  "initialState =
     \<lparr>files = Some INITIAL_FILES, activeFileId = js ''1'', explanation = JsString [],
      generatedImage = None, history = [INITIAL_FILES], historyIndex = 0\<rparr>"

section \<open>Undo/redo history\<close>

definition pushToHistory :: "ProjectFile list \<Rightarrow> AppState \<Rightarrow> AppState" where
  "pushToHistory newFiles s =
     (let newHistory = take (historyIndex s + 1) (history s) @ [newFiles]
      in s\<lparr>history := newHistory, historyIndex := length newHistory - 1,
            files := Some newFiles\<rparr>)"

definition undo :: "AppState \<Rightarrow> AppState" where
  "undo s =
     (if historyIndex s > 0
      then let newIndex = historyIndex s - 1
           in s\<lparr>historyIndex := newIndex, files := js_nth (history s) newIndex\<rparr>
      else s)"

definition redo :: "AppState \<Rightarrow> AppState" where
  "redo s =
     (if int (historyIndex s) < int (length (history s)) - 1
      then let newIndex = historyIndex s + 1
           in s\<lparr>historyIndex := newIndex, files := js_nth (history s) newIndex\<rparr>
      else s)"

text \<open>Sequences of the three history operations.\<close>

datatype hist_op = Push "ProjectFile list" | HUndo | HRedo

fun hist_step :: "hist_op \<Rightarrow> AppState \<Rightarrow> AppState" where
  "hist_step (Push newFiles) s = pushToHistory newFiles s"
| "hist_step HUndo s = undo s"
| "hist_step HRedo s = redo s"

definition hist_run :: "hist_op list \<Rightarrow> AppState \<Rightarrow> AppState" where
  "hist_run ops s = fold hist_step ops s"

text \<open>
  The invariant of the history log: it is non-empty, the index is a position of it, and
  the entry at the index is the visible file list.
\<close>

definition hist_inv :: "AppState \<Rightarrow> bool" where
  "hist_inv s \<longleftrightarrow>
     history s \<noteq> [] \<and> historyIndex s < length (history s) \<and>
     files s = Some (history s ! historyIndex s)"

section \<open>File operations of the App component\<close>

text \<open>
  A handler that throws leaves the state updates it had already requested in place, so a
  thrown error carries the state the component holds afterwards: \<open>Inl (e, s')\<close>.
\<close>

datatype error = TypeError

type_synonym 'a outcome = "(error \<times> 'a) + 'a"

definition state_of :: "'a outcome \<Rightarrow> 'a" where
  "state_of r = (case r of Inl (e, s) \<Rightarrow> s | Inr s \<Rightarrow> s)"

text \<open>
  \<^verbatim>\<open>files.find(f => f.id === activeFileId) || files[0]\<close>: the result is \<open>None\<close>
  when it is \<^verbatim>\<open>undefined\<close>, and reading \<^verbatim>\<open>files\<close> throws when that variable is
  \<^verbatim>\<open>undefined\<close>.
\<close>

definition activeFile :: "AppState \<Rightarrow> error + ProjectFile option" where
  "activeFile s =
     (case files s of
        None \<Rightarrow> Inl TypeError
      | Some fs \<Rightarrow>
          Inr (case find (\<lambda>f. id' f = activeFileId s) fs of
                 Some f \<Rightarrow> Some f
               | None \<Rightarrow> js_nth fs 0))"

definition updateActiveFileContent :: "jsvalue \<Rightarrow> AppState \<Rightarrow> AppState outcome" where
  "updateActiveFileContent newContent s =
     (case files s of
        None \<Rightarrow> Inl (TypeError, s)
      | Some fs \<Rightarrow>
          let updatedFiles =
                map (\<lambda>f. if id' f = activeFileId s then f\<lparr>content := newContent\<rparr> else f) fs
          in Inr (pushToHistory updatedFiles s))"

text \<open>
  \<^verbatim>\<open>simpleId()\<close> draws the new id from \<^verbatim>\<open>Math.random()\<close>; the drawn string is the
  argument \<open>gid\<close>.
\<close>

definition handleFileCreate :: "jsstring \<Rightarrow> jsstring \<Rightarrow> AppState \<Rightarrow> AppState outcome" where
  "handleFileCreate nm gid s =
     (let newFile =
            \<lparr>id' = gid, name = nm,
             language = (if endsWith nm (js ''.json'') then json else gdscript),
             content = (if endsWith nm (js ''.json'') then JsString (js ''{}'')
                        else JsString (js ''extends Node'' @ [10]))\<rparr>
      in case files s of
           None \<Rightarrow> Inl (TypeError, s)
         | Some fs \<Rightarrow>
             let updatedFiles = fs @ [newFile]
             in Inr ((pushToHistory updatedFiles s)\<lparr>activeFileId := id' newFile\<rparr>))"

definition handleFileDelete :: "jsstring \<Rightarrow> AppState \<Rightarrow> AppState outcome" where
  "handleFileDelete i s =
     (case files s of
        None \<Rightarrow> Inl (TypeError, s)
      | Some fs \<Rightarrow>
          if length fs \<le> 1 then Inr s
          else
            let updatedFiles = filter (\<lambda>f. id' f \<noteq> i) fs;
                s1 = pushToHistory updatedFiles s
            in if activeFileId s = i
               then (case js_nth updatedFiles 0 of
                       None \<Rightarrow> Inl (TypeError, s1)
                     | Some f \<Rightarrow> Inr (s1\<lparr>activeFileId := id' f\<rparr>))
               else Inr s1)"

text \<open>
  The \<^verbatim>\<open>onFileSelect\<close> callback that App hands to the file explorer: it stores the
  id and clears the generated image.
\<close>

definition onFileSelect :: "jsstring \<Rightarrow> AppState \<Rightarrow> AppState" where
  "onFileSelect i s = s\<lparr>activeFileId := i, generatedImage := None\<rparr>"

subsection \<open>The file explorer's create form (FileExplorer.tsx)\<close>

record ExplorerState =
  isCreating :: bool
  newFileName :: jsstring

definition handleCreateSubmit ::
    "jsstring \<Rightarrow> ExplorerState \<Rightarrow> AppState \<Rightarrow> (ExplorerState \<times> AppState) outcome" where
  "handleCreateSubmit gid es s =
     (if trim (newFileName es) \<noteq> []
      then (case handleFileCreate (trim (newFileName es)) gid s of
              Inl (e, s') \<Rightarrow> Inl (e, (es, s'))
            | Inr s' \<Rightarrow> Inr (es\<lparr>newFileName := [], isCreating := False\<rparr>, s'))
      else Inr (es, s))"

section \<open>Sequences of user operations\<close>

text \<open>
  The events that change the file set: creating a file (with the name given and the id
  that \<^verbatim>\<open>simpleId()\<close> drew), editing the active file's content, deleting a file,
  selecting a file, undo and redo. \<open>step\<close> is the state the component holds after the
  event and \<open>run\<close> plays a list of events from left to right.
\<close>

datatype app_op =
  Create jsstring jsstring | Update jsvalue | Delete jsstring | Select jsstring | Undo | Redo

fun step :: "app_op \<Rightarrow> AppState \<Rightarrow> AppState" where
  "step (Create nm gid) s = state_of (handleFileCreate nm gid s)"
| "step (Update newContent) s = state_of (updateActiveFileContent newContent s)"
| "step (Delete i) s = state_of (handleFileDelete i s)"
| "step (Select i) s = onFileSelect i s"
| "step Undo s = undo s"
| "step Redo s = redo s"

definition run :: "app_op list \<Rightarrow> AppState \<Rightarrow> AppState" where
  "run ops s = fold step ops s"

text \<open>The ids of the files in the visible snapshot, in display order.\<close>

definition visibleIds :: "AppState \<Rightarrow> jsstring list" where
  "visibleIds s = (case files s of None \<Rightarrow> [] | Some fs \<Rightarrow> map id' fs)"

text \<open>
  \<open>freshIds ops s\<close>: playing \<open>ops\<close> from \<open>s\<close>, every creation draws an id that no
  file visible at that moment has. The source does not check this; it is the condition
  under which the drawn ids behave as unique ones.
\<close>

fun freshIds :: "app_op list \<Rightarrow> AppState \<Rightarrow> bool" where
  "freshIds [] s = True"
| "freshIds (Create nm gid # ops) s =
     (gid \<notin> set (visibleIds s) \<and> freshIds ops (step (Create nm gid) s))"
| "freshIds (x # ops) s = freshIds ops (step x s)"

text \<open>
  The invariant behind the properties of sequences: the index is a position of the log,
  the visible file list is the entry there, and every entry of the log is non-empty with
  pairwise distinct ids.
\<close>

definition wf_state :: "AppState \<Rightarrow> bool" where
  "wf_state s \<longleftrightarrow>
     historyIndex s < length (history s) \<and>
     files s = Some (history s ! historyIndex s) \<and>
     (\<forall>fs \<in> set (history s). fs \<noteq> [] \<and> distinct (map id' fs))"

section \<open>The generation service and the Tools component\<close>

text \<open>
  The calls to the external model are the only asynchronous steps; what such a call
  yields is an input here: a thrown value or a result. The request text that
  \<^verbatim>\<open>generateGodotCode\<close> assembles goes to the external model only and is no part of
  the state.
\<close>

datatype ToolMode = CODE_GEN | ASSET_GEN | PHYSICS | LOGIC | DEBUGGER | CHAT

datatype AssetOutputMode = script | image

datatype thrown = JsError jsstring | NonError

text \<open>
  What \<^verbatim>\<open>handleAction\<close> reads of the value that \<^verbatim>\<open>JSON.parse\<close> returned:
  whether it is falsy, and for a truthy value its \<^verbatim>\<open>code\<close> and
  \<^verbatim>\<open>explanation\<close> properties, each \<^verbatim>\<open>undefined\<close> when the value has no such
  property (as for the \<^verbatim>\<open>{}\<close> parsed when the reply has no text).
\<close>

datatype parsed = Falsy | Truthy jsvalue jsvalue

text \<open>
  \<open>reply\<close> is the outcome of \<^verbatim>\<open>ai.models.generateContent\<close> followed by
  \<^verbatim>\<open>JSON.parse\<close>; whatever is thrown there is logged and thrown again.
\<close>

definition generateGodotCode :: "jsstring \<Rightarrow> thrown + parsed \<Rightarrow> thrown + parsed" where
  "generateGodotCode apiKey reply =
     (if apiKey = [] then Inl (JsError (js ''API Key missing''))
      else (case reply of Inl e \<Rightarrow> Inl e | Inr r \<Rightarrow> Inr r))"

definition generateVisualAsset ::
    "jsstring \<Rightarrow> thrown + (jsstring \<times> jsstring) option list \<Rightarrow> thrown + jsstring" where
  "generateVisualAsset apiKey reply =
     (if apiKey = [] then Inl (JsError (js ''API Key missing''))
      else (case reply of
              Inl e \<Rightarrow> Inl e
            | Inr parts \<Rightarrow>
                (case find (\<lambda>p. p \<noteq> None) parts of
                   Some (Some (mimeType, d)) \<Rightarrow>
                     Inr (js ''data:'' @ mimeType @ js '';base64,'' @ d)
                 | _ \<Rightarrow> Inl (JsError (js ''No image data received in response.'')))))"

definition analyzeError :: "jsstring \<Rightarrow> thrown + jsstring option \<Rightarrow> thrown + jsstring option" where
  "analyzeError apiKey reply =
     (if apiKey = [] then Inl (JsError (js ''API Key missing'')) else reply)"

text \<open>
  What the surroundings contribute to one run of \<^verbatim>\<open>handleAction\<close>: the API key of
  the service module, the outcome of each external call (for the image call the parts of
  the first candidate, each with its inline data if it has any; for the analysis call
  the reply text if there is one), and the message text the engine gives a
  \<^verbatim>\<open>TypeError\<close>.
\<close>

record Environment =
  apiKey :: jsstring
  codeReply :: "thrown + parsed"
  imageReply :: "thrown + (jsstring \<times> jsstring) option list"
  analysisReply :: "thrown + jsstring option"
  typeErrorMessage :: jsstring

text \<open>
  The props and state variables of \<^verbatim>\<open>Tools\<close> that \<^verbatim>\<open>handleAction\<close> reads or
  writes.
\<close>

record ToolsState =
  mode :: ToolMode
  prompt :: jsstring
  referenceInput :: jsstring
  errorInput :: jsstring
  assetOutputMode :: AssetOutputMode
  selectedImage :: "jsstring option"
  loading :: bool

text \<open>
  The callbacks App passes to Tools. \<^verbatim>\<open>onExplanation\<close> and
  \<^verbatim>\<open>onImageGenerated\<close> are the state setters themselves and act on the state of the
  moment they are called. \<^verbatim>\<open>onCodeUpdate\<close> is a function made in one render of App:
  the \<^verbatim>\<open>updateActiveFileContent\<close> it calls computes the new file list and the new
  log from the \<^verbatim>\<open>files\<close>, \<^verbatim>\<open>activeFileId\<close>, \<^verbatim>\<open>history\<close> and
  \<^verbatim>\<open>historyIndex\<close> of that render, \<open>r\<close>, and stores them into the state of the
  moment, \<open>s\<close>. Called in the render it was made in, \<open>r\<close> is \<open>s\<close>.
\<close>

definition onCodeUpdate :: "AppState \<Rightarrow> jsvalue \<Rightarrow> AppState \<Rightarrow> AppState outcome" where
  "onCodeUpdate r c s =
     (case updateActiveFileContent c r of
        Inl (e, r') \<Rightarrow> Inl (e, s)
      | Inr r' \<Rightarrow>
          Inr (s\<lparr>history := history r', historyIndex := historyIndex r', files := files r',
                 generatedImage := None\<rparr>))"

definition onExplanation :: "jsvalue \<Rightarrow> AppState \<Rightarrow> AppState" where
  "onExplanation text s = s\<lparr>explanation := text\<rparr>"

definition onImageGenerated :: "jsstring \<Rightarrow> AppState \<Rightarrow> AppState" where
  "onImageGenerated url s = s\<lparr>generatedImage := Some url\<rparr>"

text \<open>The text the \<^verbatim>\<open>catch\<close> block of \<^verbatim>\<open>handleAction\<close> makes of what was thrown.\<close>

definition errorText :: "thrown \<Rightarrow> jsstring" where
  "errorText e =
     js ''Error: '' @ (case e of JsError message \<Rightarrow> message
                       | NonError \<Rightarrow> js ''Unknown error occurred'')"

text \<open>
  \<^verbatim>\<open>customPrompt || prompt\<close>, and the condition under which \<^verbatim>\<open>handleAction\<close>
  returns at once, before it calls anything.
\<close>

definition finalPrompt :: "jsstring option \<Rightarrow> ToolsState \<Rightarrow> jsstring" where
  "finalPrompt customPrompt t =
     (case customPrompt of
        Some p \<Rightarrow> (if p \<noteq> [] then p else prompt t)
      | None \<Rightarrow> prompt t)"

definition returnsAtGuard :: "jsstring option \<Rightarrow> ToolsState \<Rightarrow> bool" where
  "returnsAtGuard customPrompt t \<longleftrightarrow>
     trim (finalPrompt customPrompt t) = [] \<and> mode t \<noteq> DEBUGGER \<and>
     trim (referenceInput t) = [] \<and>
     (selectedImage t = None \<or> selectedImage t = Some [])"

text \<open>
  \<^verbatim>\<open>handleAction\<close> of the render with the Tools state \<open>t\<close> and the App state \<open>s\<close>.
  Up to the awaited call it runs at once; the rest runs when the call settles, with the
  variables and callbacks of the render it was started in. \<open>meanwhile\<close> is what the
  events handled while the call was pending did to the state; it is the identity when
  there were none.
\<close>

definition handleAction ::
    "jsstring option \<Rightarrow> Environment \<Rightarrow> (ToolsState \<times> AppState \<Rightarrow> ToolsState \<times> AppState) \<Rightarrow>
     ToolsState \<Rightarrow> AppState \<Rightarrow> ToolsState \<times> AppState" where
  "handleAction customPrompt env meanwhile t s =
     (if returnsAtGuard customPrompt t then (t, s)
      else
        (case meanwhile (t\<lparr>loading := True\<rparr>, onExplanation (JsString []) s) of
           (t', s0) \<Rightarrow>
             let s1 =
                   (if mode t = ASSET_GEN \<and> assetOutputMode t = image
                    then
                      let effectivePrompt =
                            (if finalPrompt customPrompt t \<noteq> [] then finalPrompt customPrompt t
                             else js ''A high quality game asset.'')
                      in (case generateVisualAsset (apiKey env) (imageReply env) of
                            Inl e \<Rightarrow> onExplanation (JsString (errorText e)) s0
                          | Inr imageUrl \<Rightarrow>
                              onExplanation
                                (JsString (js ''Generated visual asset based on: '' @
                                           effectivePrompt))
                                (onImageGenerated imageUrl s0))
                    else if mode t = DEBUGGER
                    then
                      (case analyzeError (apiKey env) (analysisReply env) of
                         Inl e \<Rightarrow> onExplanation (JsString (errorText e)) s0
                       | Inr analysis \<Rightarrow>
                           onExplanation
                             (case analysis of
                                Some a \<Rightarrow>
                                  (if a \<noteq> [] then JsString a
                                   else JsString (js ''No analysis returned.''))
                              | None \<Rightarrow> JsString (js ''No analysis returned.'')) s0)
                    else
                      (case generateGodotCode (apiKey env) (codeReply env) of
                         Inl e \<Rightarrow> onExplanation (JsString (errorText e)) s0
                       | Inr Falsy \<Rightarrow> s0
                       | Inr (Truthy code expl) \<Rightarrow>
                           (case onCodeUpdate s code s0 of
                              Inl (err, s') \<Rightarrow>
                                onExplanation
                                  (JsString (errorText (JsError (typeErrorMessage env)))) s'
                            | Inr s' \<Rightarrow> onExplanation expl s')))
             in (t'\<lparr>loading := False\<rparr>, s1)))"

section \<open>Properties of the history\<close>

lemma hist_inv_initial: "hist_inv initialState"
  by (simp add: hist_inv_def initialState_def)

lemma hist_inv_push: "hist_inv (pushToHistory newFiles s)"
  by (simp add: hist_inv_def pushToHistory_def Let_def nth_append)

lemma hist_inv_undo: "hist_inv s \<Longrightarrow> hist_inv (undo s)"
  by (auto simp: hist_inv_def undo_def js_nth_def Let_def)

lemma hist_inv_redo: "hist_inv s \<Longrightarrow> hist_inv (redo s)"
  by (auto simp: hist_inv_def redo_def js_nth_def Let_def)

lemma hist_inv_step: "hist_inv s \<Longrightarrow> hist_inv (hist_step x s)"
  by (cases x) (simp_all add: hist_inv_push hist_inv_undo hist_inv_redo)

lemma hist_inv_fold: "hist_inv s \<Longrightarrow> hist_inv (fold hist_step ops s)"
  by (induction ops arbitrary: s) (simp_all add: hist_inv_step)

text \<open>
  C1. After every sequence of push, undo and redo operations from the initial state (the
  log holding the seed snapshot alone, index 0), the log is non-empty, the index is a
  position of the log, and the entry at the index is the visible file list.
\<close>

theorem C1_history_invariant:
  "history (hist_run ops initialState) \<noteq> [] \<and>
   historyIndex (hist_run ops initialState) < length (history (hist_run ops initialState)) \<and>
   files (hist_run ops initialState) =
     Some (history (hist_run ops initialState) ! historyIndex (hist_run ops initialState))"
proof -
  have "hist_inv (hist_run ops initialState)"
    unfolding hist_run_def by (rule hist_inv_fold) (rule hist_inv_initial)
  then show ?thesis by (simp add: hist_inv_def)
qed

text \<open>
  C2. \<^verbatim>\<open>push(newSnapshot)\<close> keeps the log up to the index, appends the new snapshot,
  moves the index to the new last position and makes the new snapshot visible. Hence, on
  a non-empty log, \<^verbatim>\<open>push(A); undo(); push(B)\<close> leaves exactly the state that
  \<^verbatim>\<open>push(B)\<close> alone leaves: the entry that \<^verbatim>\<open>push(A)\<close> appended is gone, the log
  is the kept prefix followed by \<open>B\<close>, a following redo changes nothing, and the value
  \<open>A\<close> occurs in the log only if it is \<open>B\<close> or one of the kept earlier entries.
\<close>

theorem C2_push_truncates_and_discards_branch:
  "history (pushToHistory newFiles s) = take (historyIndex s + 1) (history s) @ [newFiles] \<and>
   historyIndex (pushToHistory newFiles s) = length (history (pushToHistory newFiles s)) - 1 \<and>
   files (pushToHistory newFiles s) = Some newFiles \<and>
   (history s \<noteq> [] \<longrightarrow>
      pushToHistory B (undo (pushToHistory A s)) = pushToHistory B s \<and>
      history (pushToHistory B (undo (pushToHistory A s))) =
        take (historyIndex s + 1) (history s) @ [B] \<and>
      redo (pushToHistory B (undo (pushToHistory A s))) =
        pushToHistory B (undo (pushToHistory A s)) \<and>
      files (redo (pushToHistory B (undo (pushToHistory A s)))) = Some B \<and>
      (A \<noteq> B \<and> A \<notin> set (take (historyIndex s + 1) (history s)) \<longrightarrow>
         A \<notin> set (history (pushToHistory B (undo (pushToHistory A s))))))"
proof -
  have push: "history (pushToHistory newFiles s) =
        take (historyIndex s + 1) (history s) @ [newFiles] \<and>
      historyIndex (pushToHistory newFiles s) = length (history (pushToHistory newFiles s)) - 1 \<and>
      files (pushToHistory newFiles s) = Some newFiles"
    by (simp add: pushToHistory_def Let_def)
  have branch: "pushToHistory B (undo (pushToHistory A s)) = pushToHistory B s"
    if ne: "history s \<noteq> []"
  proof -
    from ne have pos: "0 < length (history s)" by simp
    then have "min (length (history s)) (historyIndex s + 1) - 1 < length (history s)"
      by arith
    with pos show ?thesis
      by (simp add: pushToHistory_def undo_def Let_def min_def)
  qed
  have tail: "redo (pushToHistory B t) = pushToHistory B t" for t
    by (simp add: redo_def pushToHistory_def Let_def)
  have hist: "history (pushToHistory B s) = take (historyIndex s + 1) (history s) @ [B]"
    by (simp add: pushToHistory_def Let_def)
  have vis: "files (pushToHistory B t) = Some B" for t
    by (simp add: pushToHistory_def Let_def)
  show ?thesis
    using push branch tail hist vis by auto
qed

theorem C2_witness:
  "history initialState \<noteq> [] \<and>
   pushToHistory INITIAL_FILES (undo (pushToHistory [] initialState)) =
     pushToHistory INITIAL_FILES initialState \<and>
   history (pushToHistory INITIAL_FILES (undo (pushToHistory [] initialState))) =
     [INITIAL_FILES, INITIAL_FILES] \<and>
   [] \<notin> set (history (pushToHistory INITIAL_FILES (undo (pushToHistory [] initialState))))"
proof -
  have ne: "history initialState \<noteq> []"
    by (simp add: initialState_def)
  have neq: "[] \<noteq> INITIAL_FILES \<and>
      [] \<notin> set (take (historyIndex initialState + 1) (history initialState))"
    by (simp add: initialState_def INITIAL_FILES_def)
  have pre: "take (historyIndex initialState + 1) (history initialState) = [INITIAL_FILES]"
    by (simp add: initialState_def)
  show ?thesis
    using C2_push_truncates_and_discards_branch
      [of INITIAL_FILES initialState INITIAL_FILES "[]"] ne neq pre
    by simp
qed

text \<open>
  C3. \<^verbatim>\<open>undo()\<close> with a positive index moves the index down by one and shows the log
  entry at the new index, leaving the log alone; at index 0 it changes nothing.
  \<^verbatim>\<open>redo()\<close> with the index before the last position moves it up by one and shows
  the entry there; at the tail it changes nothing.
\<close>

theorem C3_undo_redo:
  "(0 < historyIndex s \<longrightarrow>
      historyIndex (undo s) = historyIndex s - 1 \<and> history (undo s) = history s \<and>
      files (undo s) = js_nth (history (undo s)) (historyIndex (undo s)) \<and>
      (historyIndex s \<le> length (history s) \<longrightarrow>
         files (undo s) = Some (history s ! (historyIndex s - 1)))) \<and>
   (historyIndex s = 0 \<longrightarrow> undo s = s) \<and>
   (int (historyIndex s) < int (length (history s)) - 1 \<longrightarrow>
      historyIndex (redo s) = historyIndex s + 1 \<and> history (redo s) = history s \<and>
      files (redo s) = js_nth (history (redo s)) (historyIndex (redo s)) \<and>
      files (redo s) = Some (history s ! (historyIndex s + 1))) \<and>
   (int (historyIndex s) = int (length (history s)) - 1 \<longrightarrow> redo s = s)"
  by (auto simp: undo_def redo_def js_nth_def Let_def)

theorem C3_witness:
  "0 < historyIndex (pushToHistory [] initialState) \<and>
   historyIndex (undo (pushToHistory [] initialState)) = 0 \<and>
   files (undo (pushToHistory [] initialState)) = Some INITIAL_FILES \<and>
   redo (pushToHistory [] initialState) = pushToHistory [] initialState \<and>
   undo (undo (pushToHistory [] initialState)) = undo (pushToHistory [] initialState) \<and>
   historyIndex (redo (undo (pushToHistory [] initialState))) = 1 \<and>
   files (redo (undo (pushToHistory [] initialState))) = Some []"
proof -
  have s1: "historyIndex (pushToHistory [] initialState) = 1 \<and>
      history (pushToHistory [] initialState) = [INITIAL_FILES, []]"
    by (simp add: pushToHistory_def initialState_def Let_def)
  have s2: "historyIndex (undo (pushToHistory [] initialState)) = 0 \<and>
      history (undo (pushToHistory [] initialState)) = [INITIAL_FILES, []]"
    using s1 by (simp add: undo_def Let_def)
  show ?thesis
    using C3_undo_redo [of "pushToHistory [] initialState"]
      C3_undo_redo [of "undo (pushToHistory [] initialState)"] s1 s2
    by (simp add: js_nth_def)
qed

section \<open>Properties of the file operations\<close>

text \<open>
  C4. On a snapshot of exactly one file, deleting any id changes nothing: the handler
  returns the state it was given, so the file list keeps its one file and the log gets no
  entry.
\<close>

theorem C4_delete_last_file_refused:
  "files s = Some [f] \<longrightarrow>
     handleFileDelete i s = Inr s \<and>
     files (state_of (handleFileDelete i s)) = Some [f] \<and>
     history (state_of (handleFileDelete i s)) = history s \<and>
     historyIndex (state_of (handleFileDelete i s)) = historyIndex s"
  by (simp add: handleFileDelete_def state_of_def)

theorem C4_witness:
  "files (state_of (handleFileDelete (js ''2'') initialState)) = Some [hd INITIAL_FILES] \<and>
   handleFileDelete (js ''1'') (state_of (handleFileDelete (js ''2'') initialState)) =
     Inr (state_of (handleFileDelete (js ''2'') initialState))"
proof -
  have one: "files (state_of (handleFileDelete (js ''2'') initialState)) = Some [hd INITIAL_FILES]"
    by (simp add: handleFileDelete_def state_of_def initialState_def INITIAL_FILES_def
        pushToHistory_def Let_def js_def)
  show ?thesis
    using C4_delete_last_file_refused
      [of "state_of (handleFileDelete (js ''2'') initialState)" "hd INITIAL_FILES" "js ''1''"] one
    by simp
qed

text \<open>
  C5. Updating the content maps over the file list: the result has the same length, ids,
  names and languages in the same order; a file whose id is the targeted one gets the new
  content and nothing else changes in it, every other file is the same; when no file has
  the targeted id the list is the one given.
\<close>

theorem C5_update_changes_only_content:
  "files s = Some fs \<longrightarrow>
     (\<exists>fs'. updateActiveFileContent newContent s = Inr (pushToHistory fs' s) \<and>
        files (state_of (updateActiveFileContent newContent s)) = Some fs' \<and>
        length fs' = length fs \<and>
        map id' fs' = map id' fs \<and> map name fs' = map name fs \<and>
        map language fs' = map language fs \<and>
        (\<forall>k < length fs.
           (id' (fs ! k) = activeFileId s \<longrightarrow> fs' ! k = (fs ! k)\<lparr>content := newContent\<rparr>) \<and>
           (id' (fs ! k) \<noteq> activeFileId s \<longrightarrow> fs' ! k = fs ! k)) \<and>
        (activeFileId s \<notin> set (map id' fs) \<longrightarrow> fs' = fs))"
proof
  assume fs: "files s = Some fs"
  define fs' where
    "fs' = map (\<lambda>f. if id' f = activeFileId s then f\<lparr>content := newContent\<rparr> else f) fs"
  have run: "updateActiveFileContent newContent s = Inr (pushToHistory fs' s)"
    using fs by (simp add: updateActiveFileContent_def fs'_def)
  have vis: "files (state_of (updateActiveFileContent newContent s)) = Some fs'"
    by (simp add: run state_of_def pushToHistory_def Let_def)
  have len: "length fs' = length fs"
    by (simp add: fs'_def)
  have ids: "map id' fs' = map id' fs"
    by (simp add: fs'_def)
  have names: "map name fs' = map name fs"
    by (simp add: fs'_def)
  have langs: "map language fs' = map language fs"
    by (simp add: fs'_def)
  have pointwise: "\<forall>k < length fs.
      (id' (fs ! k) = activeFileId s \<longrightarrow> fs' ! k = (fs ! k)\<lparr>content := newContent\<rparr>) \<and>
      (id' (fs ! k) \<noteq> activeFileId s \<longrightarrow> fs' ! k = fs ! k)"
    by (simp add: fs'_def)
  have absent: "activeFileId s \<notin> set (map id' fs) \<longrightarrow> fs' = fs"
    unfolding fs'_def by (induction fs) auto
  show "\<exists>fs'. updateActiveFileContent newContent s = Inr (pushToHistory fs' s) \<and>
        files (state_of (updateActiveFileContent newContent s)) = Some fs' \<and>
        length fs' = length fs \<and>
        map id' fs' = map id' fs \<and> map name fs' = map name fs \<and>
        map language fs' = map language fs \<and>
        (\<forall>k < length fs.
           (id' (fs ! k) = activeFileId s \<longrightarrow> fs' ! k = (fs ! k)\<lparr>content := newContent\<rparr>) \<and>
           (id' (fs ! k) \<noteq> activeFileId s \<longrightarrow> fs' ! k = fs ! k)) \<and>
        (activeFileId s \<notin> set (map id' fs) \<longrightarrow> fs' = fs)"
    using run vis len ids names langs pointwise absent by blast
qed

theorem C5_witness:
  "files initialState = Some INITIAL_FILES \<and>
   (\<exists>fs'. files (state_of (updateActiveFileContent (JsString (js ''B'')) initialState)) = Some fs' \<and>
      map id' fs' = [js ''1'', js ''2''] \<and>
      fs' ! 0 = (INITIAL_FILES ! 0)\<lparr>content := JsString (js ''B'')\<rparr> \<and> fs' ! 1 = INITIAL_FILES ! 1) \<and>
   activeFileId (onFileSelect (js ''zz'') initialState) \<notin> set (map id' INITIAL_FILES) \<and>
   files (state_of (updateActiveFileContent (JsString (js ''B'')) (onFileSelect (js ''zz'') initialState))) =
     Some INITIAL_FILES"
proof -
  have init: "files initialState = Some INITIAL_FILES"
    by (simp add: initialState_def)
  have sel: "files (onFileSelect (js ''zz'') initialState) = Some INITIAL_FILES \<and>
      activeFileId (onFileSelect (js ''zz'') initialState) \<notin> set (map id' INITIAL_FILES)"
    by (simp add: onFileSelect_def initialState_def INITIAL_FILES_def js_def)
  from C5_update_changes_only_content
    [of "onFileSelect (js ''zz'') initialState" INITIAL_FILES "JsString (js ''B'')"] sel
  have other: "files (state_of (updateActiveFileContent (JsString (js ''B''))
      (onFileSelect (js ''zz'') initialState))) = Some INITIAL_FILES"
    by auto
  have facts: "length INITIAL_FILES = 2 \<and> map id' INITIAL_FILES = [js ''1'', js ''2''] \<and>
      id' (INITIAL_FILES ! 0) = activeFileId initialState \<and>
      id' (INITIAL_FILES ! 1) \<noteq> activeFileId initialState"
    by (simp add: INITIAL_FILES_def initialState_def js_def)
  from C5_update_changes_only_content [of initialState INITIAL_FILES "JsString (js ''B'')"] init
  obtain fs' where
    fs': "files (state_of (updateActiveFileContent (JsString (js ''B'')) initialState)) = Some fs'"
      "map id' fs' = map id' INITIAL_FILES"
      "\<forall>k < length INITIAL_FILES.
         (id' (INITIAL_FILES ! k) = activeFileId initialState \<longrightarrow>
            fs' ! k = (INITIAL_FILES ! k)\<lparr>content := JsString (js ''B'')\<rparr>) \<and>
         (id' (INITIAL_FILES ! k) \<noteq> activeFileId initialState \<longrightarrow> fs' ! k = INITIAL_FILES ! k)"
    by blast
  from facts have "0 < length INITIAL_FILES" and "1 < length INITIAL_FILES"
    by simp_all
  with fs'(3) facts
  have "fs' ! 0 = (INITIAL_FILES ! 0)\<lparr>content := JsString (js ''B'')\<rparr> \<and> fs' ! 1 = INITIAL_FILES ! 1"
    by blast
  with fs'(1,2) facts init sel other show ?thesis by auto
qed

text \<open>
  C8 as stated fails in its last clause: nothing fails when the name is empty after
  trimming. \<^verbatim>\<open>handleFileCreate\<close> does not look at the name and appends a file with
  the empty name, pushing a log entry; the create form, given a blank name, returns as
  usual, with no error raised or reported.
\<close>

theorem C8_counterexample:
  "trim [] = [] \<and>
   \<not> isl (handleFileCreate [] (js ''i'') initialState) \<and>
   files (state_of (handleFileCreate [] (js ''i'') initialState)) =
     Some (INITIAL_FILES @
       [\<lparr>id' = js ''i'', name = [], language = gdscript,
         content = JsString (js ''extends Node'' @ [10])\<rparr>]) \<and>
   length (history (state_of (handleFileCreate [] (js ''i'') initialState))) = 2 \<and>
   trim (js ''  '') = [] \<and>
   \<not> isl (handleCreateSubmit (js ''i'') \<lparr>isCreating = True, newFileName = js ''  ''\<rparr>
            initialState)"
  by (simp add: trim_def isWhiteSpace_def handleCreateSubmit_def handleFileCreate_def
      state_of_def initialState_def pushToHistory_def Let_def js_def endsWith_def)

text \<open>
  C8, amended. For every snapshot and every name, creating a file appends exactly one
  file after the existing ones, which stay as they were and in order; its content is
  the empty object literal when the name ends in \<^verbatim>\<open>.json\<close> and the one-line script
  skeleton otherwise. Creating does not check the name. The check is the caller's: the
  create form passes the trimmed name on when it is non-empty, and when the name is empty
  after trimming it returns without creating anything and without an error, the state
  being the one it was given.
\<close>

theorem C8_create_appends_one_file:
  "(files s = Some fs \<longrightarrow>
      (\<exists>s'. handleFileCreate nm gid s = Inr s' \<and>
         files s' =
           Some (fs @ [\<lparr>id' = gid, name = nm,
                        language = (if endsWith nm (js ''.json'') then json else gdscript),
                        content = (if endsWith nm (js ''.json'') then JsString (js ''{}'')
                                   else JsString (js ''extends Node'' @ [10]))\<rparr>]) \<and>
         history s' = take (historyIndex s + 1) (history s) @ [the (files s')] \<and>
         activeFileId s' = gid)) \<and>
   (files s = Some fs \<and> trim (newFileName es) \<noteq> [] \<longrightarrow>
      (\<exists>s'. handleFileCreate (trim (newFileName es)) gid s = Inr s' \<and>
         handleCreateSubmit gid es s = Inr (es\<lparr>newFileName := [], isCreating := False\<rparr>, s'))) \<and>
   (trim (newFileName es) = [] \<longrightarrow> handleCreateSubmit gid es s = Inr (es, s))"
  by (simp add: handleFileCreate_def handleCreateSubmit_def pushToHistory_def Let_def)

theorem C8_witness:
  "files initialState = Some INITIAL_FILES \<and>
   trim (js '' data.json '') = js ''data.json'' \<and> trim (js ''  '') = [] \<and>
   (\<exists>s'. handleCreateSubmit (js ''i'') \<lparr>isCreating = True, newFileName = js '' data.json ''\<rparr>
            initialState = Inr (\<lparr>isCreating = False, newFileName = []\<rparr>, s') \<and>
         files s' = Some (INITIAL_FILES @
           [\<lparr>id' = js ''i'', name = js ''data.json'', language = json,
             content = JsString (js ''{}'')\<rparr>])) \<and>
   handleCreateSubmit (js ''i'') \<lparr>isCreating = True, newFileName = js ''  ''\<rparr> initialState =
     Inr (\<lparr>isCreating = True, newFileName = js ''  ''\<rparr>, initialState)"
proof -
  have init: "files initialState = Some INITIAL_FILES"
    by (simp add: initialState_def)
  have t1: "trim (js '' data.json '') = js ''data.json''"
    by (simp add: trim_def isWhiteSpace_def js_def)
  have t2: "trim (js ''  '') = []"
    by (simp add: trim_def isWhiteSpace_def js_def)
  have e1: "endsWith (js ''data.json'') (js ''.json'')"
    by (simp add: endsWith_def js_def)
  have ne: "js ''data.json'' \<noteq> []"
    by (simp add: js_def)
  from C8_create_appends_one_file
    [of initialState INITIAL_FILES "js ''data.json''" "js ''i''"
        "\<lparr>isCreating = True, newFileName = js '' data.json ''\<rparr>"]
    init t1 e1 ne
  have a: "\<exists>s'. handleCreateSubmit (js ''i'') \<lparr>isCreating = True, newFileName = js '' data.json ''\<rparr>
            initialState = Inr (\<lparr>isCreating = False, newFileName = []\<rparr>, s') \<and>
         files s' = Some (INITIAL_FILES @
           [\<lparr>id' = js ''i'', name = js ''data.json'', language = json,
             content = JsString (js ''{}'')\<rparr>])"
    by auto
  from C8_create_appends_one_file
    [of initialState INITIAL_FILES "js ''data.json''" "js ''i''"
        "\<lparr>isCreating = True, newFileName = js ''  ''\<rparr>"] t2
  have b: "handleCreateSubmit (js ''i'') \<lparr>isCreating = True, newFileName = js ''  ''\<rparr> initialState =
     Inr (\<lparr>isCreating = True, newFileName = js ''  ''\<rparr>, initialState)"
    by simp
  from init t1 t2 a b show ?thesis by blast
qed

section \<open>Invariants of operation sequences\<close>

lemmas eval_defs = run_def handleFileCreate_def handleFileDelete_def updateActiveFileContent_def
  onFileSelect_def undo_def redo_def state_of_def initialState_def pushToHistory_def Let_def
  visibleIds_def INITIAL_FILES_def js_def endsWith_def js_nth_def activeFile_def

lemma wf_initial: "wf_state initialState"
  by (simp add: wf_state_def initialState_def INITIAL_FILES_def js_def)

lemma wf_visible:
  "wf_state s \<Longrightarrow> \<exists>fs. files s = Some fs \<and> fs \<noteq> [] \<and> distinct (map id' fs)"
  by (auto simp: wf_state_def)

lemma wf_push:
  assumes "wf_state s" and "newFiles \<noteq> []" and "distinct (map id' newFiles)"
  shows "wf_state (pushToHistory newFiles s)"
proof -
  have "set (take (historyIndex s + 1) (history s)) \<subseteq> set (history s)"
    by (rule set_take_subset)
  with assms show ?thesis
    by (auto simp: wf_state_def pushToHistory_def Let_def nth_append)
qed

lemma wf_undo: "wf_state s \<Longrightarrow> wf_state (undo s)"
  by (auto simp: wf_state_def undo_def js_nth_def Let_def)

lemma wf_redo: "wf_state s \<Longrightarrow> wf_state (redo s)"
  by (auto simp: wf_state_def redo_def js_nth_def Let_def)

lemma wf_select: "wf_state s \<Longrightarrow> wf_state (onFileSelect i s)"
  by (simp add: wf_state_def onFileSelect_def)

lemma wf_activeFileId_update: "wf_state s \<Longrightarrow> wf_state (s\<lparr>activeFileId := i\<rparr>)"
  by (simp add: wf_state_def)

lemma wf_update: 
  assumes "wf_state s" shows "wf_state (state_of (updateActiveFileContent newContent s))"
proof -
  from wf_visible [OF assms] obtain fs where fs: "files s = Some fs" "fs \<noteq> []" "distinct (map id' fs)"
    by blast
  let ?g = "\<lambda>f. if id' f = activeFileId s then f\<lparr>content := newContent\<rparr> else f"
  have ids: "map id' (map ?g fs) = map id' fs" by simp
  have "wf_state (pushToHistory (map ?g fs) s)"
    using assms fs(2) fs(3) by (intro wf_push) (simp_all only: ids, simp)
  then show ?thesis
    using fs(1) by (simp add: updateActiveFileContent_def state_of_def)
qed

lemma wf_create:
  assumes "wf_state s" and "gid \<notin> set (visibleIds s)"
  shows "wf_state (state_of (handleFileCreate nm gid s))"
proof -
  from wf_visible [OF assms(1)] obtain fs where fs: "files s = Some fs" "fs \<noteq> []" "distinct (map id' fs)"
    by blast
  from assms(2) fs(1) have fresh: "gid \<notin> set (map id' fs)"
    by (simp add: visibleIds_def)
  define newFile where "newFile =
            \<lparr>id' = gid, name = nm,
             language = (if endsWith nm (js ''.json'') then json else gdscript),
             content = (if endsWith nm (js ''.json'') then JsString (js ''{}'')
                        else JsString (js ''extends Node'' @ [10]))\<rparr>"
  have "distinct (map id' (fs @ [newFile]))"
    using fs(3) fresh by (simp add: newFile_def)
  then have "wf_state (pushToHistory (fs @ [newFile]) s)"
    using assms(1) by (intro wf_push) simp_all
  then have "wf_state ((pushToHistory (fs @ [newFile]) s)\<lparr>activeFileId := id' newFile\<rparr>)"
    by (rule wf_activeFileId_update)
  then show ?thesis
    using fs(1) by (simp add: handleFileCreate_def state_of_def Let_def newFile_def)
qed

lemma filter_other_ids_nonempty:
  assumes "distinct (map id' fs)" and "1 < length fs"
  shows "filter (\<lambda>f. id' f \<noteq> i) fs \<noteq> []"
proof (cases fs)
  case Nil
  with assms(2) show ?thesis by simp
next
  case (Cons a rest)
  with assms(2) obtain b rest' where rest: "rest = b # rest'"
    by (cases rest) auto
  from assms(1) Cons rest have "id' a \<noteq> id' b" by auto
  then have "id' a \<noteq> i \<or> id' b \<noteq> i" by auto
  with Cons rest show ?thesis by auto
qed

lemma wf_delete:
  assumes "wf_state s" shows "wf_state (state_of (handleFileDelete i s))"
proof -
  from wf_visible [OF assms] obtain fs where fs: "files s = Some fs" "fs \<noteq> []" "distinct (map id' fs)"
    by blast
  show ?thesis
  proof (cases "length fs \<le> 1")
    case True
    with fs(1) assms show ?thesis by (simp add: handleFileDelete_def state_of_def)
  next
    case False
    let ?u = "filter (\<lambda>f. id' f \<noteq> i) fs"
    from False fs(3) have ne: "?u \<noteq> []" by (intro filter_other_ids_nonempty) simp_all
    have "distinct (map id' ?u)" using fs(3) by (rule distinct_map_filter)
    with ne assms have push: "wf_state (pushToHistory ?u s)" by (intro wf_push)
    from ne obtain f where f: "js_nth ?u 0 = Some f" by (auto simp: js_nth_def)
    show ?thesis
      using fs(1) False push f wf_activeFileId_update [OF push]
      by (simp add: handleFileDelete_def state_of_def Let_def)
  qed
qed

lemma wf_run: "wf_state s \<Longrightarrow> freshIds ops s \<Longrightarrow> wf_state (fold step ops s)"
proof (induction ops arbitrary: s)
  case Nil
  then show ?case by simp
next
  case (Cons x ops)
  then show ?case by (cases x) (simp_all add: wf_create wf_update wf_delete wf_select wf_undo wf_redo)
qed

lemma activeFile_resolves:
  assumes "files s = Some fs" and "fs \<noteq> []"
  shows "\<exists>f. activeFile s = Inr (Some f) \<and> f \<in> set fs \<and>
           (activeFileId s \<in> set (map id' fs) \<longrightarrow> id' f = activeFileId s) \<and>
           (activeFileId s \<notin> set (map id' fs) \<longrightarrow> f = fs ! 0)"
proof (cases "find (\<lambda>f. id' f = activeFileId s) fs")
  case None
  then have "activeFileId s \<notin> set (map id' fs)"
    by (auto simp: find_None_iff)
  with None assms show ?thesis
    by (simp add: activeFile_def js_nth_def)
next
  case (Some f)
  then have f: "f \<in> set fs \<and> id' f = activeFileId s"
    by (auto simp: find_Some_iff)
  then have "activeFileId s \<in> set (map id' fs)"
    by force
  with f Some assms show ?thesis
    by (simp add: activeFile_def)
qed

section \<open>File ids\<close>

text \<open>
  C9 as stated fails: nothing in \<^verbatim>\<open>handleFileCreate\<close> compares the drawn id with the
  ids in use. When \<^verbatim>\<open>simpleId()\<close> yields the same string for two creations, the
  visible snapshot holds two files with one id.
\<close>

theorem C9_counterexample:
  "\<not> distinct (visibleIds (run [Create (js ''a.gd'') (js ''i''), Create (js ''b.gd'') (js ''i'')]
                     initialState))"
  by (simp add: eval_defs)

text \<open>
  C9, amended. In every snapshot reached from the initial state by creating, editing,
  deleting, selecting, undo and redo, the file ids are pairwise distinct, in the visible
  snapshot and in every entry of the log, provided that each creation drew an id that no
  file of the snapshot visible at that moment had.
\<close>

theorem C9_ids_distinct_when_fresh:
  "freshIds ops initialState \<Longrightarrow>
     distinct (visibleIds (run ops initialState)) \<and>
     (\<forall>fs \<in> set (history (run ops initialState)). distinct (map id' fs))"
proof -
  assume "freshIds ops initialState"
  then have wf: "wf_state (run ops initialState)"
    unfolding run_def by (intro wf_run wf_initial)
  from wf_visible [OF wf] have "distinct (visibleIds (run ops initialState))"
    by (auto simp: visibleIds_def)
  with wf show ?thesis by (simp add: wf_state_def)
qed

theorem C9_witness:
  "freshIds [Create (js ''enemy.gd'') (js ''i''), Update (JsString (js ''B'')), Delete (js ''1''), Undo, Redo,
             Create (js ''x.json'') (js ''k'')] initialState \<and>
   distinct (visibleIds (run [Create (js ''enemy.gd'') (js ''i''), Update (JsString (js ''B'')),
                              Delete (js ''1''), Undo, Redo, Create (js ''x.json'') (js ''k'')]
                          initialState))"
proof -
  have fresh: "freshIds [Create (js ''enemy.gd'') (js ''i''), Update (JsString (js ''B'')), Delete (js ''1''),
      Undo, Redo, Create (js ''x.json'') (js ''k'')] initialState"
    by (simp add: eval_defs)
  show ?thesis
    using C9_ids_distinct_when_fresh [OF fresh] fresh by simp
qed

section \<open>Resolving the active file\<close>

text \<open>
  C10 as stated fails: with an id drawn twice, deleting that id removes both files at
  once, past the guard that keeps the last file, and leaves an empty file list on which
  the active file resolves to \<^verbatim>\<open>undefined\<close>.
\<close>

theorem C10_counterexample:
  "files (run [Create (js ''a.gd'') (js ''i''), Create (js ''b.gd'') (js ''i''),
               Create (js ''c.gd'') (js ''k''), Undo,
               Delete (js ''1''), Delete (js ''2''), Delete (js ''i'')] initialState) = Some [] \<and>
   activeFile (run [Create (js ''a.gd'') (js ''i''), Create (js ''b.gd'') (js ''i''),
               Create (js ''c.gd'') (js ''k''), Undo,
               Delete (js ''1''), Delete (js ''2''), Delete (js ''i'')] initialState) = Inr None"
  by (simp add: eval_defs)

text \<open>
  C10, amended. After any sequence of operations from the initial two-file state in which
  each creation drew an id not in use in the visible snapshot, the visible file list is
  non-empty and computing the active file yields a file: one with the stored id when a
  visible file has it, and the first file of the snapshot when none has (for example
  after undoing the creation of the active file, which leaves the stored id as it was).
\<close>

theorem C10_active_file_total_when_fresh:
  "freshIds ops initialState \<Longrightarrow>
     (\<exists>fs f. files (run ops initialState) = Some fs \<and> fs \<noteq> [] \<and>
        activeFile (run ops initialState) = Inr (Some f) \<and>
        (activeFileId (run ops initialState) \<in> set (map id' fs) \<longrightarrow>
           f \<in> set fs \<and> id' f = activeFileId (run ops initialState)) \<and>
        (activeFileId (run ops initialState) \<notin> set (map id' fs) \<longrightarrow> f = fs ! 0))"
proof -
  assume "freshIds ops initialState"
  then have wf: "wf_state (run ops initialState)"
    unfolding run_def by (intro wf_run wf_initial)
  from wf_visible [OF wf] obtain fs where
    fs: "files (run ops initialState) = Some fs" "fs \<noteq> []"
    by blast
  from activeFile_resolves [OF fs] fs show ?thesis by blast
qed

theorem C10_witness:
  "freshIds [Create (js ''data.json'') (js ''k''), Update (JsString (js ''{}'')), Undo, Undo] initialState \<and>
   activeFileId (run [Create (js ''data.json'') (js ''k''), Update (JsString (js ''{}'')), Undo, Undo]
                   initialState) = js ''k'' \<and>
   activeFile (run [Create (js ''data.json'') (js ''k''), Update (JsString (js ''{}'')), Undo, Undo]
                 initialState) = Inr (Some (INITIAL_FILES ! 0))"
proof -
  let ?ops = "[Create (js ''data.json'') (js ''k''), Update (JsString (js ''{}'')), Undo, Undo]"
  have fresh: "freshIds ?ops initialState"
    by (simp add: eval_defs)
  have st: "files (run ?ops initialState) = Some INITIAL_FILES \<and>
      activeFileId (run ?ops initialState) = js ''k''"
    by (simp add: eval_defs)
  have absent: "js ''k'' \<notin> set (map id' INITIAL_FILES)"
    by (simp add: INITIAL_FILES_def js_def)
  from C10_active_file_total_when_fresh [OF fresh] obtain fs f where
    r: "files (run ?ops initialState) = Some fs"
      "activeFile (run ?ops initialState) = Inr (Some f)"
      "activeFileId (run ?ops initialState) \<notin> set (map id' fs) \<longrightarrow> f = fs ! 0"
    by blast
  from r(1) st have "fs = INITIAL_FILES" by simp
  with r(2,3) st absent fresh show ?thesis by simp
qed

section \<open>The active-file pointer\<close>

text \<open>
  C6. The claim is that after every sequence of operations the stored active-file id
  names a file of the visible snapshot, or has been repointed to the first remaining
  file. The code does the repointing when the active file is deleted, and misses it on
  undo and redo. Evaluated at: create \<^verbatim>\<open>enemy.gd\<close> (the id drawn is \<open>i\<close>; the new
  file becomes the active one), then undo. Afterwards the visible files are the two initial
  ones and the stored id is still \<open>i\<close>: it names no visible file and is not the id of
  the first file. The displayed file falls back to the first one, but an edit then changes
  no file, still pushes an entry and so drops the entry that redo would restore. Deleting
  the active file of the initial state, by contrast, stores the id of the first file that
  remains.
\<close>

theorem C6_undo_leaves_pointer_dangling:
  "activeFileId (run [Create (js ''enemy.gd'') (js ''i''), Undo] initialState) = js ''i'' \<and>
   visibleIds (run [Create (js ''enemy.gd'') (js ''i''), Undo] initialState) =
     [js ''1'', js ''2''] \<and>
   activeFileId (run [Create (js ''enemy.gd'') (js ''i''), Undo] initialState)
     \<notin> set (visibleIds (run [Create (js ''enemy.gd'') (js ''i''), Undo] initialState)) \<and>
   activeFile (run [Create (js ''enemy.gd'') (js ''i''), Undo] initialState) =
     Inr (Some (INITIAL_FILES ! 0)) \<and>
   length (history (run [Create (js ''enemy.gd'') (js ''i''), Undo] initialState)) = 2 \<and>
   files (run [Create (js ''enemy.gd'') (js ''i''), Undo, Update (JsString (js ''x''))]
            initialState) = Some INITIAL_FILES \<and>
   history (run [Create (js ''enemy.gd'') (js ''i''), Undo, Update (JsString (js ''x''))]
              initialState) = [INITIAL_FILES, INITIAL_FILES] \<and>
   redo (run [Create (js ''enemy.gd'') (js ''i''), Undo, Update (JsString (js ''x''))]
           initialState) =
     run [Create (js ''enemy.gd'') (js ''i''), Undo, Update (JsString (js ''x''))] initialState \<and>
   activeFileId (run [Delete (js ''1'')] initialState) = js ''2'' \<and>
   visibleIds (run [Delete (js ''1'')] initialState) = [js ''2'']"
  by (simp add: eval_defs)

section \<open>The generation path\<close>

text \<open>
  Two runs of \<^verbatim>\<open>handleAction\<close> whose call succeeds. A reply without text parses to
  \<^verbatim>\<open>{}\<close>, which is truthy and has no \<^verbatim>\<open>code\<close>: the active file's content
  becomes \<^verbatim>\<open>undefined\<close> and the log gets an entry. A file created while the call was
  pending is dropped when the reply is applied, since the new file list is computed from
  the files of the render the call was started in; the stored active-file id stays the
  created file's.
\<close>

lemma handleAction_reply_without_code:
  "snd (handleAction None
      \<lparr>apiKey = js ''k'', codeReply = Inr (Truthy JsUndefined JsUndefined),
       imageReply = Inr [], analysisReply = Inr None, typeErrorMessage = []\<rparr>
      (\<lambda>x. x)
      \<lparr>mode = CODE_GEN, prompt = js ''jump'', referenceInput = [], errorInput = [],
       assetOutputMode = script, selectedImage = None, loading = False\<rparr>
      initialState) =
   initialState
     \<lparr>files := Some [(INITIAL_FILES ! 0)\<lparr>content := JsUndefined\<rparr>, INITIAL_FILES ! 1],
      history := [INITIAL_FILES,
                  [(INITIAL_FILES ! 0)\<lparr>content := JsUndefined\<rparr>, INITIAL_FILES ! 1]],
      historyIndex := 1, explanation := JsUndefined\<rparr>"
  by (simp add: handleAction_def returnsAtGuard_def finalPrompt_def trim_def isWhiteSpace_def
      generateGodotCode_def onCodeUpdate_def onExplanation_def updateActiveFileContent_def
      initialState_def pushToHistory_def Let_def INITIAL_FILES_def js_def)

lemma handleAction_reply_after_create:
  "files (snd (handleAction None
      \<lparr>apiKey = js ''k'', codeReply = Inr (Truthy (JsString (js ''pass'')) (JsString [])),
       imageReply = Inr [], analysisReply = Inr None, typeErrorMessage = []\<rparr>
      (\<lambda>(t, s). (t, step (Create (js ''enemy.gd'') (js ''i'')) s))
      \<lparr>mode = CODE_GEN, prompt = js ''jump'', referenceInput = [], errorInput = [],
       assetOutputMode = script, selectedImage = None, loading = False\<rparr>
      initialState)) =
     Some [(INITIAL_FILES ! 0)\<lparr>content := JsString (js ''pass'')\<rparr>, INITIAL_FILES ! 1] \<and>
   activeFileId (snd (handleAction None
      \<lparr>apiKey = js ''k'', codeReply = Inr (Truthy (JsString (js ''pass'')) (JsString [])),
       imageReply = Inr [], analysisReply = Inr None, typeErrorMessage = []\<rparr>
      (\<lambda>(t, s). (t, step (Create (js ''enemy.gd'') (js ''i'')) s))
      \<lparr>mode = CODE_GEN, prompt = js ''jump'', referenceInput = [], errorInput = [],
       assetOutputMode = script, selectedImage = None, loading = False\<rparr>
      initialState)) = js ''i''"
  by (simp add: handleAction_def returnsAtGuard_def finalPrompt_def trim_def isWhiteSpace_def
      generateGodotCode_def onCodeUpdate_def onExplanation_def updateActiveFileContent_def
      handleFileCreate_def state_of_def endsWith_def
      initialState_def pushToHistory_def Let_def INITIAL_FILES_def js_def)


lemma generateGodotCode_throws_iff:
  "generateGodotCode k reply = Inl e \<longleftrightarrow>
     (k = [] \<and> e = JsError (js ''API Key missing'')) \<or> (k \<noteq> [] \<and> reply = Inl e)"
  by (auto simp: generateGodotCode_def split: sum.splits)

lemma activeFile_cong:
  "files u = files s \<Longrightarrow> activeFileId u = activeFileId s \<Longrightarrow> activeFile u = activeFile s"
  by (simp add: activeFile_def split: option.splits)

lemma handleAction_generation_throws:
  assumes "\<not> returnsAtGuard customPrompt t" and "mode t \<noteq> DEBUGGER"
    and "\<not> (mode t = ASSET_GEN \<and> assetOutputMode t = image)"
    and "generateGodotCode (apiKey env) (codeReply env) = Inl e"
  shows "handleAction customPrompt env meanwhile t s =
     ((fst (meanwhile (t\<lparr>loading := True\<rparr>, s\<lparr>explanation := JsString []\<rparr>)))
        \<lparr>loading := False\<rparr>,
      (snd (meanwhile (t\<lparr>loading := True\<rparr>, s\<lparr>explanation := JsString []\<rparr>)))
        \<lparr>explanation := JsString (errorText e)\<rparr>)"
  using assms
  by (auto simp: handleAction_def onExplanation_def split: prod.splits)

text \<open>
  C7. When \<^verbatim>\<open>handleAction\<close> gets as far as calling \<^verbatim>\<open>generateGodotCode\<close> and the
  call throws, all it does afterwards is store the error message as the explanation and
  clear the loading flag. With no other event while the call was pending, the result is
  the state from before the call with that explanation: the log, the index, the file
  list, the stored active-file id and the resolved active file, with its content, are the
  ones from before the call, and the log has no new entry. With other events in between,
  those four are what the events left, and the failed call adds nothing to them.
\<close>

theorem C7_failed_generation_leaves_state:
  "\<not> returnsAtGuard customPrompt t \<and> mode t \<noteq> DEBUGGER \<and>
   \<not> (mode t = ASSET_GEN \<and> assetOutputMode t = image) \<and>
   generateGodotCode (apiKey env) (codeReply env) = Inl e \<longrightarrow>
     handleAction customPrompt env (\<lambda>x. x) t s =
       (t\<lparr>loading := False\<rparr>, s\<lparr>explanation := JsString (errorText e)\<rparr>) \<and>
     explanation (snd (handleAction customPrompt env (\<lambda>x. x) t s)) = JsString (errorText e) \<and>
     history (snd (handleAction customPrompt env (\<lambda>x. x) t s)) = history s \<and>
     historyIndex (snd (handleAction customPrompt env (\<lambda>x. x) t s)) = historyIndex s \<and>
     files (snd (handleAction customPrompt env (\<lambda>x. x) t s)) = files s \<and>
     activeFileId (snd (handleAction customPrompt env (\<lambda>x. x) t s)) = activeFileId s \<and>
     activeFile (snd (handleAction customPrompt env (\<lambda>x. x) t s)) = activeFile s \<and>
     handleAction customPrompt env meanwhile t s =
       ((fst (meanwhile (t\<lparr>loading := True\<rparr>, s\<lparr>explanation := JsString []\<rparr>)))
          \<lparr>loading := False\<rparr>,
        (snd (meanwhile (t\<lparr>loading := True\<rparr>, s\<lparr>explanation := JsString []\<rparr>)))
          \<lparr>explanation := JsString (errorText e)\<rparr>)"
proof
  assume hyp: "\<not> returnsAtGuard customPrompt t \<and> mode t \<noteq> DEBUGGER \<and>
    \<not> (mode t = ASSET_GEN \<and> assetOutputMode t = image) \<and>
    generateGodotCode (apiKey env) (codeReply env) = Inl e"
  then have general: "handleAction customPrompt env meanwhile t s =
     ((fst (meanwhile (t\<lparr>loading := True\<rparr>, s\<lparr>explanation := JsString []\<rparr>)))
        \<lparr>loading := False\<rparr>,
      (snd (meanwhile (t\<lparr>loading := True\<rparr>, s\<lparr>explanation := JsString []\<rparr>)))
        \<lparr>explanation := JsString (errorText e)\<rparr>)"
    by (intro handleAction_generation_throws) simp_all
  from hyp have "handleAction customPrompt env (\<lambda>x. x) t s =
     ((fst (t\<lparr>loading := True\<rparr>, s\<lparr>explanation := JsString []\<rparr>))\<lparr>loading := False\<rparr>,
      (snd (t\<lparr>loading := True\<rparr>, s\<lparr>explanation := JsString []\<rparr>))
        \<lparr>explanation := JsString (errorText e)\<rparr>)"
    by (intro handleAction_generation_throws) simp_all
  then have quiet: "handleAction customPrompt env (\<lambda>x. x) t s =
      (t\<lparr>loading := False\<rparr>, s\<lparr>explanation := JsString (errorText e)\<rparr>)"
    by simp
  have resolved: "activeFile (s\<lparr>explanation := JsString (errorText e)\<rparr>) = activeFile s"
    by (rule activeFile_cong) simp_all
  show "handleAction customPrompt env (\<lambda>x. x) t s =
       (t\<lparr>loading := False\<rparr>, s\<lparr>explanation := JsString (errorText e)\<rparr>) \<and>
     explanation (snd (handleAction customPrompt env (\<lambda>x. x) t s)) = JsString (errorText e) \<and>
     history (snd (handleAction customPrompt env (\<lambda>x. x) t s)) = history s \<and>
     historyIndex (snd (handleAction customPrompt env (\<lambda>x. x) t s)) = historyIndex s \<and>
     files (snd (handleAction customPrompt env (\<lambda>x. x) t s)) = files s \<and>
     activeFileId (snd (handleAction customPrompt env (\<lambda>x. x) t s)) = activeFileId s \<and>
     activeFile (snd (handleAction customPrompt env (\<lambda>x. x) t s)) = activeFile s \<and>
     handleAction customPrompt env meanwhile t s =
       ((fst (meanwhile (t\<lparr>loading := True\<rparr>, s\<lparr>explanation := JsString []\<rparr>)))
          \<lparr>loading := False\<rparr>,
        (snd (meanwhile (t\<lparr>loading := True\<rparr>, s\<lparr>explanation := JsString []\<rparr>)))
          \<lparr>explanation := JsString (errorText e)\<rparr>)"
    using general by (simp add: quiet resolved)
qed

theorem C7_witness:
  "\<not> returnsAtGuard None
      \<lparr>mode = CODE_GEN, prompt = js ''jump'', referenceInput = [], errorInput = [],
       assetOutputMode = script, selectedImage = None, loading = False\<rparr> \<and>
   generateGodotCode [] (Inr Falsy) = Inl (JsError (js ''API Key missing'')) \<and>
   handleAction None
      \<lparr>apiKey = [], codeReply = Inr Falsy, imageReply = Inr [], analysisReply = Inr None,
       typeErrorMessage = []\<rparr>
      (\<lambda>x. x)
      \<lparr>mode = CODE_GEN, prompt = js ''jump'', referenceInput = [], errorInput = [],
       assetOutputMode = script, selectedImage = None, loading = False\<rparr>
      initialState =
     (\<lparr>mode = CODE_GEN, prompt = js ''jump'', referenceInput = [], errorInput = [],
       assetOutputMode = script, selectedImage = None, loading = False\<rparr>,
      initialState\<lparr>explanation := JsString (js ''Error: API Key missing'')\<rparr>) \<and>
   files (snd (handleAction None
      \<lparr>apiKey = [], codeReply = Inr Falsy, imageReply = Inr [], analysisReply = Inr None,
       typeErrorMessage = []\<rparr>
      (\<lambda>x. x)
      \<lparr>mode = CODE_GEN, prompt = js ''jump'', referenceInput = [], errorInput = [],
       assetOutputMode = script, selectedImage = None, loading = False\<rparr>
      initialState)) = Some INITIAL_FILES \<and>
   history (snd (handleAction None
      \<lparr>apiKey = [], codeReply = Inr Falsy, imageReply = Inr [], analysisReply = Inr None,
       typeErrorMessage = []\<rparr>
      (\<lambda>x. x)
      \<lparr>mode = CODE_GEN, prompt = js ''jump'', referenceInput = [], errorInput = [],
       assetOutputMode = script, selectedImage = None, loading = False\<rparr>
      initialState)) = [INITIAL_FILES]"
proof -
  let ?t = "\<lparr>mode = CODE_GEN, prompt = js ''jump'', referenceInput = [], errorInput = [],
       assetOutputMode = script, selectedImage = None, loading = False\<rparr>"
  let ?env = "\<lparr>apiKey = [], codeReply = Inr Falsy, imageReply = Inr [],
       analysisReply = Inr None, typeErrorMessage = []\<rparr>"
  have called: "\<not> returnsAtGuard None ?t"
    by (simp add: returnsAtGuard_def finalPrompt_def trim_def isWhiteSpace_def js_def)
  have branch: "mode ?t \<noteq> DEBUGGER \<and> \<not> (mode ?t = ASSET_GEN \<and> assetOutputMode ?t = image)"
    by simp
  have throws: "generateGodotCode (apiKey ?env) (codeReply ?env) =
      Inl (JsError (js ''API Key missing''))"
    by (simp add: generateGodotCode_def)
  have msg: "errorText (JsError (js ''API Key missing'')) = js ''Error: API Key missing''"
    by (simp add: errorText_def js_def)
  have init: "files initialState = Some INITIAL_FILES \<and> history initialState = [INITIAL_FILES]"
    by (simp add: initialState_def)
  from C7_failed_generation_leaves_state
    [of None ?t ?env "JsError (js ''API Key missing'')" initialState "\<lambda>x. x"]
    called branch throws
  have r: "handleAction None ?env (\<lambda>x. x) ?t initialState =
        (?t\<lparr>loading := False\<rparr>,
         initialState\<lparr>explanation := JsString (errorText (JsError (js ''API Key missing'')))\<rparr>)"
      "files (snd (handleAction None ?env (\<lambda>x. x) ?t initialState)) = files initialState"
      "history (snd (handleAction None ?env (\<lambda>x. x) ?t initialState)) = history initialState"
    by blast+
  from throws have throws': "generateGodotCode [] (Inr Falsy) =
      Inl (JsError (js ''API Key missing''))"
    by simp
  from called throws' r msg init show ?thesis
    by simp
qed

end

